theory Spec2Isabelle
  imports Main
begin

section \<open>The CSS selector builder of 05-objects-tasks.js\<close>

text \<open>
  The builder is the class \<open>CSSSelectorBuilder\<close>: eight fields, six fragment-adding
  methods that return a fresh object or throw, the method \<open>stringify\<close>, the static
  method \<open>combine\<close> and the facade object \<open>cssSelectorBuilder\<close>. Names are JavaScript
  strings, modelled as \<^typ>\<open>string\<close>; a string is truthy exactly when it is not empty.
\<close>

subsection \<open>Errors\<close>

text \<open>
  The two helpers \<open>throwErrorMoreThanOne\<close> and \<open>throwErrorOrder\<close> throw an \<open>Error\<close>
  with a fixed message each. A thrown error is the left summand of the result.
\<close>

datatype error = ErrorMoreThanOne | ErrorOrder

definition throwErrorMoreThanOne :: "error + 'a" where
  "throwErrorMoreThanOne = Inl ErrorMoreThanOne"

definition throwErrorOrder :: "error + 'a" where
  "throwErrorOrder = Inl ErrorOrder"

text \<open>Sequencing of calls in a chain \<open>a.m1(..).m2(..)\<close>: a throw ends the chain.\<close>

definition bind :: "error + 'a \<Rightarrow> ('a \<Rightarrow> error + 'b) \<Rightarrow> error + 'b" where
  "bind r f = (case r of Inl e \<Rightarrow> Inl e | Inr x \<Rightarrow> f x)"

subsection \<open>The table \<open>cssSelectorOrder\<close>\<close>

datatype part = PElement | PId | PClasses | PAttrs | PPseudoClass | PPseudoElement

fun cssSelectorOrder :: "part \<Rightarrow> int" where
  "cssSelectorOrder PElement = 0"
| "cssSelectorOrder PId = 1"
| "cssSelectorOrder PClasses = 2"
| "cssSelectorOrder PAttrs = 3"
| "cssSelectorOrder PPseudoClass = 4"
| "cssSelectorOrder PPseudoElement = 5"

subsection \<open>The class and its constructor\<close>

record CSSSelectorBuilder =
  order :: int
  prefix :: string
  elementValue :: string
  idValue :: string
  classes :: "string list"
  attrs :: "string list"
  pseudoClasses :: "string list"
  psuedoElementValue :: string

definition new_CSSSelectorBuilder ::
  "int \<Rightarrow> string \<Rightarrow> string \<Rightarrow> string \<Rightarrow> string list \<Rightarrow> string list \<Rightarrow> string list \<Rightarrow> string
     \<Rightarrow> CSSSelectorBuilder" where
  "new_CSSSelectorBuilder ord pre el i cls ats pcs pe =
     \<lparr>order = ord, prefix = pre, elementValue = el, idValue = i, classes = cls,
      attrs = ats, pseudoClasses = pcs, psuedoElementValue = pe\<rparr>"

subsection \<open>\<open>stringify\<close>\<close>

text \<open>
  \<open>Array.prototype.join\<close> on an array of strings. An array interpolated into a template
  literal without a call of \<open>join\<close> is converted by \<open>Array.prototype.toString\<close>, which is
  \<open>join\<close> with the separator \<open>,\<close>.
\<close>

fun join :: "string \<Rightarrow> string list \<Rightarrow> string" where
  "join sep [] = []"
| "join sep [x] = x"
| "join sep (x # y # ys) = x @ sep @ join sep (y # ys)"

definition array_toString :: "string list \<Rightarrow> string" where
  "array_toString xs = join '','' xs"

text \<open>
  The template literal of \<open>stringify\<close>, one factor for each \<open>${...}\<close>, in the order of the
  source. The arrays \<open>classes\<close> and \<open>pseudoClasses\<close> are mapped and joined with the empty
  separator; the array \<open>attrs\<close> is mapped and interpolated as it is.
\<close>

definition stringify :: "CSSSelectorBuilder \<Rightarrow> string" where
  "stringify this =
     prefix this
     @ elementValue this
     @ (if idValue this \<noteq> [] then ''#'' else '''')
     @ idValue this
     @ join '''' (map (\<lambda>cssClass. ''.'' @ cssClass) (classes this))
     @ array_toString (map (\<lambda>attr. ''['' @ attr @ '']'') (attrs this))
     @ join '''' (map (\<lambda>pseudoClass. '':'' @ pseudoClass) (pseudoClasses this))
     @ (if psuedoElementValue this \<noteq> [] then ''::'' else '''')
     @ psuedoElementValue this"

subsection \<open>The fragment-adding methods\<close>

text \<open>
  Each method runs its guards in the order of the source (a guard that throws ends the
  call) and then builds a new object from the receiver's fields. The receiver is the
  last argument, so that a chain reads \<open>bind (element a this) (id_sel b)\<close>.
\<close>

definition element :: "string \<Rightarrow> CSSSelectorBuilder \<Rightarrow> error + CSSSelectorBuilder" where
  "element v this =
     (if elementValue this \<noteq> [] then throwErrorMoreThanOne
      else if order this > cssSelectorOrder PElement then throwErrorOrder
      else Inr (new_CSSSelectorBuilder (cssSelectorOrder PElement) (prefix this) v
             (idValue this) (classes this) (attrs this) (pseudoClasses this)
             (psuedoElementValue this)))"

definition id_sel :: "string \<Rightarrow> CSSSelectorBuilder \<Rightarrow> error + CSSSelectorBuilder" where
  "id_sel v this =
     (if idValue this \<noteq> [] then throwErrorMoreThanOne
      else if order this > cssSelectorOrder PId then throwErrorOrder
      else Inr (new_CSSSelectorBuilder (cssSelectorOrder PId) (prefix this)
             (elementValue this) v (classes this) (attrs this) (pseudoClasses this)
             (psuedoElementValue this)))"

definition class_sel :: "string \<Rightarrow> CSSSelectorBuilder \<Rightarrow> error + CSSSelectorBuilder" where
  "class_sel v this =
     (if order this > cssSelectorOrder PClasses then throwErrorOrder
      else Inr (new_CSSSelectorBuilder (cssSelectorOrder PClasses) (prefix this)
             (elementValue this) (idValue this) (classes this @ [v]) (attrs this)
             (pseudoClasses this) (psuedoElementValue this)))"

definition attr :: "string \<Rightarrow> CSSSelectorBuilder \<Rightarrow> error + CSSSelectorBuilder" where
  "attr v this =
     (if order this > cssSelectorOrder PAttrs then throwErrorOrder
      else Inr (new_CSSSelectorBuilder (cssSelectorOrder PAttrs) (prefix this)
             (elementValue this) (idValue this) (classes this) (attrs this @ [v])
             (pseudoClasses this) (psuedoElementValue this)))"

definition pseudoClass :: "string \<Rightarrow> CSSSelectorBuilder \<Rightarrow> error + CSSSelectorBuilder" where
  "pseudoClass v this =
     (if order this > cssSelectorOrder PPseudoClass then throwErrorOrder
      else Inr (new_CSSSelectorBuilder (cssSelectorOrder PPseudoClass) (prefix this)
             (elementValue this) (idValue this) (classes this) (attrs this)
             (pseudoClasses this @ [v]) (psuedoElementValue this)))"

definition pseudoElement :: "string \<Rightarrow> CSSSelectorBuilder \<Rightarrow> error + CSSSelectorBuilder" where
  "pseudoElement v this =
     (if psuedoElementValue this \<noteq> [] then throwErrorMoreThanOne
      else Inr (new_CSSSelectorBuilder (cssSelectorOrder PPseudoElement) (prefix this)
             (elementValue this) (idValue this) (classes this) (attrs this)
             (pseudoClasses this) v))"

subsection \<open>\<open>combine\<close> and the facade\<close>

definition combine :: "CSSSelectorBuilder \<Rightarrow> string \<Rightarrow> CSSSelectorBuilder \<Rightarrow> CSSSelectorBuilder" where
  "combine selector1 combinator selector2 =
     new_CSSSelectorBuilder 1000
       (stringify selector1 @ '' '' @ combinator @ '' '' @ stringify selector2)
       '''' '''' [] [] [] ''''"

definition cssSelectorBuilder :: CSSSelectorBuilder where
  "cssSelectorBuilder = new_CSSSelectorBuilder (- 1) '''' '''' '''' [] [] [] ''''"


subsection \<open>Calling the methods\<close>

text \<open>
  A call of one of the six fragment-adding methods, and a chain of such calls
  \<open>this.m1(v1).m2(v2)...\<close>: each call is made on the object the previous one
  returned, and the first throw ends the chain.
\<close>

datatype call = CElement string | CId string | CClass string | CAttr string
  | CPseudoClass string | CPseudoElement string

fun apply_call :: "CSSSelectorBuilder \<Rightarrow> call \<Rightarrow> error + CSSSelectorBuilder" where
  "apply_call this (CElement v) = element v this"
| "apply_call this (CId v) = id_sel v this"
| "apply_call this (CClass v) = class_sel v this"
| "apply_call this (CAttr v) = attr v this"
| "apply_call this (CPseudoClass v) = pseudoClass v this"
| "apply_call this (CPseudoElement v) = pseudoElement v this"

fun chain :: "CSSSelectorBuilder \<Rightarrow> call list \<Rightarrow> error + CSSSelectorBuilder" where
  "chain this [] = Inr this"
| "chain this (c # cs) = bind (apply_call this c) (\<lambda>next. chain next cs)"

text \<open>The category of a call, as the table \<open>cssSelectorOrder\<close> ranks it.\<close>

fun call_part :: "call \<Rightarrow> part" where
  "call_part (CElement v) = PElement"
| "call_part (CId v) = PId"
| "call_part (CClass v) = PClasses"
| "call_part (CAttr v) = PAttrs"
| "call_part (CPseudoClass v) = PPseudoClass"
| "call_part (CPseudoElement v) = PPseudoElement"

text \<open>
  The expressions \<open>combine(e1, combinator, e2)\<close> and \<open>e.stringify()\<close> where the
  operands are themselves chains: an operand that throws makes the expression throw.
\<close>

definition combine_of ::
  "error + CSSSelectorBuilder \<Rightarrow> string \<Rightarrow> error + CSSSelectorBuilder
     \<Rightarrow> error + CSSSelectorBuilder" where
  "combine_of e1 combinator e2 =
     bind e1 (\<lambda>selector1. bind e2 (\<lambda>selector2. Inr (combine selector1 combinator selector2)))"

definition stringify_of :: "error + CSSSelectorBuilder \<Rightarrow> error + string" where
  "stringify_of e = bind e (\<lambda>this. Inr (stringify this))"

text \<open>
  The rendering as the specification words it, for comparison with \<open>stringify\<close>: the
  prefix, the element name, \<open>#\<close> and the id if set, \<open>.\<close> and each class, each attribute
  in brackets, \<open>:\<close> and each pseudo-class, \<open>::\<close> and the pseudo-element if set, with
  nothing between the parts. A name is set when the field is not the empty string.
\<close>

definition spec_stringify :: "CSSSelectorBuilder \<Rightarrow> string" where
  "spec_stringify b =
     prefix b
     @ elementValue b
     @ (if idValue b \<noteq> [] then ''#'' @ idValue b else [])
     @ concat (map (\<lambda>c. ''.'' @ c) (classes b))
     @ concat (map (\<lambda>a. ''['' @ a @ '']'') (attrs b))
     @ concat (map (\<lambda>p. '':'' @ p) (pseudoClasses b))
     @ (if psuedoElementValue b \<noteq> [] then ''::'' @ psuedoElementValue b else [])"

text \<open>
  The builders a caller can hold: the facade object, what a call returns on a builder
  the caller holds, and what \<open>combine\<close> returns for two such builders.
\<close>

inductive reachable :: "CSSSelectorBuilder \<Rightarrow> bool" where
  facade: "reachable cssSelectorBuilder"
| called: "reachable b \<Longrightarrow> apply_call b c = Inr b' \<Longrightarrow> reachable b'"
| combined: "reachable l \<Longrightarrow> reachable r \<Longrightarrow> reachable (combine l combinator r)"

section \<open>Properties\<close>

subsection \<open>Basic facts\<close>

lemmas throw_defs = throwErrorMoreThanOne_def throwErrorOrder_def

lemmas method_defs = element_def id_sel_def class_sel_def attr_def pseudoClass_def
  pseudoElement_def new_CSSSelectorBuilder_def throw_defs

lemma bind_Inr [simp]: "bind (Inr x) f = f x"
  by (simp add: bind_def)

lemma bind_Inl [simp]: "bind (Inl e) f = Inl e"
  by (simp add: bind_def)

lemma bind_eq_Inr: "bind r f = Inr y \<longleftrightarrow> (\<exists>x. r = Inr x \<and> f x = Inr y)"
  by (cases r) simp_all

lemma join_Nil_sep: "join [] xs = concat xs"
  by (induction "[] :: string" xs rule: join.induct) simp_all

lemma join_short: "length xs \<le> 1 \<Longrightarrow> join sep xs = concat xs"
  by (cases xs) auto

lemma chain_append: "chain b (xs @ ys) = bind (chain b xs) (\<lambda>s. chain s ys)"
proof (induction xs arbitrary: b)
  case Nil
  show ?case by simp
next
  case (Cons c cs)
  show ?case
  proof (cases "apply_call b c")
    case (Inl e)
    then show ?thesis by simp
  next
    case (Inr s)
    then show ?thesis by (simp add: Cons.IH)
  qed
qed

text \<open>When a call returns, and what the new object holds.\<close>

lemma element_Inr:
  "element v b = Inr b' \<longleftrightarrow>
     elementValue b = [] \<and> order b \<le> 0 \<and> b' = b\<lparr>order := 0, elementValue := v\<rparr>"
  by (auto simp: method_defs)

lemma id_sel_Inr:
  "id_sel v b = Inr b' \<longleftrightarrow>
     idValue b = [] \<and> order b \<le> 1 \<and> b' = b\<lparr>order := 1, idValue := v\<rparr>"
  by (auto simp: method_defs)

lemma class_sel_Inr:
  "class_sel v b = Inr b' \<longleftrightarrow> order b \<le> 2 \<and> b' = b\<lparr>order := 2, classes := classes b @ [v]\<rparr>"
  by (auto simp: method_defs)

lemma attr_Inr:
  "attr v b = Inr b' \<longleftrightarrow> order b \<le> 3 \<and> b' = b\<lparr>order := 3, attrs := attrs b @ [v]\<rparr>"
  by (auto simp: method_defs)

lemma pseudoClass_Inr:
  "pseudoClass v b = Inr b' \<longleftrightarrow>
     order b \<le> 4 \<and> b' = b\<lparr>order := 4, pseudoClasses := pseudoClasses b @ [v]\<rparr>"
  by (auto simp: method_defs)

lemma pseudoElement_Inr:
  "pseudoElement v b = Inr b' \<longleftrightarrow>
     psuedoElementValue b = [] \<and> b' = b\<lparr>order := 5, psuedoElementValue := v\<rparr>"
  by (auto simp: method_defs)

lemmas call_Inr = element_Inr id_sel_Inr class_sel_Inr attr_Inr pseudoClass_Inr
  pseudoElement_Inr

text \<open>A name that is set stays as it is along a chain.\<close>

lemma apply_call_keeps_set:
  assumes "apply_call b c = Inr b'"
  shows "elementValue b \<noteq> [] \<Longrightarrow> elementValue b' = elementValue b"
    and "idValue b \<noteq> [] \<Longrightarrow> idValue b' = idValue b"
    and "psuedoElementValue b \<noteq> [] \<Longrightarrow> psuedoElementValue b' = psuedoElementValue b"
  using assms by (cases c; auto simp: call_Inr)+

lemma chain_keeps_set:
  assumes "chain b cs = Inr b'"
  shows "elementValue b \<noteq> [] \<Longrightarrow> elementValue b' = elementValue b"
    and "idValue b \<noteq> [] \<Longrightarrow> idValue b' = idValue b"
    and "psuedoElementValue b \<noteq> [] \<Longrightarrow> psuedoElementValue b' = psuedoElementValue b"
  using assms
proof (induction cs arbitrary: b)
  case Nil
  {
    case 1 then show ?case by simp
  next
    case 2 then show ?case by simp
  next
    case 3 then show ?case by simp
  }
next
  case (Cons c cs)
  {
    case 1
    from 1(2) obtain s where s: "apply_call b c = Inr s" "chain s cs = Inr b'"
      by (auto simp: bind_eq_Inr)
    with 1(1) Cons.IH(1)[of s] apply_call_keeps_set(1)[OF s(1)] show ?case by simp
  next
    case 2
    from 2(2) obtain s where s: "apply_call b c = Inr s" "chain s cs = Inr b'"
      by (auto simp: bind_eq_Inr)
    with 2(1) Cons.IH(2)[of s] apply_call_keeps_set(2)[OF s(1)] show ?case by simp
  next
    case 3
    from 3(2) obtain s where s: "apply_call b c = Inr s" "chain s cs = Inr b'"
      by (auto simp: bind_eq_Inr)
    with 3(1) Cons.IH(3)[of s] apply_call_keeps_set(3)[OF s(1)] show ?case by simp
  }
qed

text \<open>The rendering of a combined builder is its prefix.\<close>

lemma stringify_combine:
  "stringify (combine l c r) = stringify l @ '' '' @ c @ '' '' @ stringify r"
  by (simp add: combine_def new_CSSSelectorBuilder_def stringify_def array_toString_def)

text \<open>
  Where \<open>stringify\<close> and the specification's rendering differ: the attributes are
  joined with a comma. With at most one attribute the two agree.
\<close>

lemma stringify_attrs_comma:
  "stringify b =
     prefix b @ elementValue b @ (if idValue b \<noteq> [] then ''#'' @ idValue b else [])
     @ concat (map (\<lambda>c. ''.'' @ c) (classes b))
     @ join '','' (map (\<lambda>a. ''['' @ a @ '']'') (attrs b))
     @ concat (map (\<lambda>p. '':'' @ p) (pseudoClasses b))
     @ (if psuedoElementValue b \<noteq> [] then ''::'' @ psuedoElementValue b else [])"
  by (simp add: stringify_def array_toString_def join_Nil_sep)

lemma stringify_one_attr:
  assumes "length (attrs b) \<le> 1"
  shows "stringify b = spec_stringify b"
proof -
  from assms have "join '','' (map (\<lambda>a. ''['' @ a @ '']'') (attrs b))
      = concat (map (\<lambda>a. ''['' @ a @ '']'') (attrs b))"
    by (intro join_short) simp
  then show ?thesis
    by (simp add: stringify_attrs_comma spec_stringify_def)
qed

text \<open>
  The order of a reachable builder is one of the ranks, the facade's \<open>-1\<close> or the
  \<open>1000\<close> of \<open>combine\<close>.
\<close>

lemma reachable_order:
  assumes "reachable b"
  shows "order b \<in> {- 1, 0, 1, 2, 3, 4, 5, 1000}"
  using assms
proof (induction rule: reachable.induct)
  case facade
  show ?case by (simp add: cssSelectorBuilder_def new_CSSSelectorBuilder_def)
next
  case (called b c b')
  from called.hyps(2) show ?case
    by (cases c) (auto simp: call_Inr)
next
  case (combined l r combinator)
  show ?case by (simp add: combine_def new_CSSSelectorBuilder_def)
qed

text \<open>
  The five methods with an order guard never lower the order, and reject a call whose
  category ranks below the receiver's order.
\<close>

lemma guarded_call_order_mono:
  assumes "apply_call b c = Inr b'" and "call_part c \<noteq> PPseudoElement"
  shows "order b \<le> order b'"
  using assms by (cases c) (auto simp: call_Inr)

lemma guarded_call_rejects:
  assumes "cssSelectorOrder (call_part c) < order b" and "call_part c \<noteq> PPseudoElement"
  shows "\<exists>e. apply_call b c = Inl e"
  using assms by (cases c) (auto simp: method_defs)

lemma pseudoElement_order_mono_uncombined:
  assumes "reachable b" and "order b \<noteq> 1000" and "pseudoElement v b = Inr b'"
  shows "order b \<le> order b'"
  using reachable_order[OF assms(1)] assms(2,3) by (auto simp: call_Inr)


subsection \<open>Rendering\<close>

text \<open>
  C1: \<open>stringify\<close> returns the concatenation of the prefix, the element name, \<open>#\<close> and
  the id if set, \<open>.\<close> and each class, each attribute in brackets, \<open>:\<close> and each
  pseudo-class, \<open>::\<close> and the pseudo-element if set, with nothing between the parts; two
  attributes render as adjacent bracketed groups. The code does not do so: on
  \<open>cssSelectorBuilder.attr('a').attr('b')\<close> the two calls succeed and \<open>stringify\<close> returns
  \<open>[a],[b]\<close>, with a comma between the groups, where the claim gives \<open>[a][b]\<close>. The
  array of bracketed attributes is interpolated without the \<open>join('')\<close> that the arrays
  of classes and pseudo-classes get.
\<close>

theorem stringify_two_attrs_comma:
  "chain cssSelectorBuilder [CAttr ''a'', CAttr ''b'']
     = Inr (new_CSSSelectorBuilder 3 [] [] [] [] [''a'', ''b''] [] [])
   \<and> stringify (new_CSSSelectorBuilder 3 [] [] [] [] [''a'', ''b''] [] []) = ''[a],[b]''
   \<and> spec_stringify (new_CSSSelectorBuilder 3 [] [] [] [] [''a'', ''b''] [] []) = ''[a][b]''"
  by (simp add: method_defs cssSelectorBuilder_def stringify_def spec_stringify_def
      array_toString_def)

text \<open>
  C2: for any two builders and any combinator, the builder \<open>combine\<close> returns renders as
  the left rendering, a space, the combinator, a space and the right rendering, and
  its other fields are empty. \<open>combine(element('div').id('main'), '+',
  element('table').id('data'))\<close> renders as \<open>div#main + table#data\<close>. With the
  descendant combinator \<open>' '\<close> the space of the combinator stands between the two
  spaces of the join, so the two renderings are three spaces apart.
\<close>

theorem combine_stringify:
  "stringify (combine l c r) = stringify l @ '' '' @ c @ '' '' @ stringify r
   \<and> prefix (combine l c r) = stringify l @ '' '' @ c @ '' '' @ stringify r
   \<and> elementValue (combine l c r) = []
   \<and> idValue (combine l c r) = []
   \<and> classes (combine l c r) = []
   \<and> attrs (combine l c r) = []
   \<and> pseudoClasses (combine l c r) = []
   \<and> psuedoElementValue (combine l c r) = []
   \<and> order (combine l c r) = 1000
   \<and> stringify_of (combine_of (chain cssSelectorBuilder [CElement ''div'', CId ''main'']) ''+''
         (chain cssSelectorBuilder [CElement ''table'', CId ''data'']))
       = Inr ''div#main + table#data''
   \<and> stringify (combine l '' '' r) = stringify l @ ''   '' @ stringify r"
proof -
  have ex: "stringify_of (combine_of (chain cssSelectorBuilder [CElement ''div'', CId ''main''])
      ''+'' (chain cssSelectorBuilder [CElement ''table'', CId ''data'']))
      = Inr ''div#main + table#data''"
    by (simp add: stringify_of_def combine_of_def combine_def method_defs cssSelectorBuilder_def
        stringify_def array_toString_def)
  have fields: "prefix (combine l c r) = stringify l @ '' '' @ c @ '' '' @ stringify r"
    "elementValue (combine l c r) = []" "idValue (combine l c r) = []"
    "classes (combine l c r) = []" "attrs (combine l c r) = []"
    "pseudoClasses (combine l c r) = []" "psuedoElementValue (combine l c r) = []"
    "order (combine l c r) = 1000"
    by (simp_all add: combine_def new_CSSSelectorBuilder_def)
  have sp: "stringify (combine l '' '' r) = stringify l @ ''   '' @ stringify r"
    by (simp add: stringify_combine)
  from ex fields sp stringify_combine[of l c r] show ?thesis by simp
qed

text \<open>
  C7: repeated class additions are permitted and keep their order:
  \<open>class(a).class(b).class(a)\<close> on the facade succeeds and renders as \<open>.a.b.a\<close>; a call
  of \<open>class\<close> that returns has appended its argument to the classes of the receiver,
  and a chain of such calls on a builder whose order is at most that of classes
  succeeds and appends every class in the order of the calls, duplicates included.
\<close>

theorem class_repeats_in_order:
  "chain cssSelectorBuilder [CClass a, CClass b, CClass a]
     = Inr (new_CSSSelectorBuilder 2 [] [] [] [a, b, a] [] [] [])
   \<and> stringify_of (chain cssSelectorBuilder [CClass a, CClass b, CClass a])
       = Inr (''.'' @ a @ ''.'' @ b @ ''.'' @ a)
   \<and> stringify_of (chain cssSelectorBuilder [CClass ''a'', CClass ''b'', CClass ''a''])
       = Inr ''.a.b.a''
   \<and> (class_sel v this = Inr s \<longrightarrow> classes s = classes this @ [v])
   \<and> (order this \<le> cssSelectorOrder PClasses \<longrightarrow>
        (\<exists>s. chain this (map CClass xs) = Inr s \<and> classes s = classes this @ xs))
   \<and> (\<exists>s. chain cssSelectorBuilder (map CClass xs) = Inr s \<and> classes s = xs
        \<and> stringify s = concat (map (\<lambda>cssClass. ''.'' @ cssClass) xs))"
proof -
  have three: "chain cssSelectorBuilder [CClass x, CClass y, CClass z]
      = Inr (new_CSSSelectorBuilder 2 [] [] [] [x, y, z] [] [] [])" for x y z
    by (simp add: method_defs cssSelectorBuilder_def)
  have render: "stringify (new_CSSSelectorBuilder 2 [] [] [] [x, y, z] [] [] [])
      = ''.'' @ x @ ''.'' @ y @ ''.'' @ z" for x y z
    by (simp add: new_CSSSelectorBuilder_def stringify_def array_toString_def)
  have one: "class_sel v this = Inr s \<longrightarrow> classes s = classes this @ [v]"
    by (simp add: class_sel_Inr)
  have many: "order t \<le> 2 \<Longrightarrow>
      \<exists>s. chain t (map CClass xs) = Inr s \<and> classes s = classes t @ xs
        \<and> prefix s = prefix t \<and> elementValue s = elementValue t \<and> idValue s = idValue t
        \<and> attrs s = attrs t \<and> pseudoClasses s = pseudoClasses t
        \<and> psuedoElementValue s = psuedoElementValue t" for t
  proof (induction xs arbitrary: t)
    case Nil
    show ?case by simp
  next
    case (Cons x xs)
    let ?t' = "t\<lparr>order := 2, classes := classes t @ [x]\<rparr>"
    from Cons.prems have step: "class_sel x t = Inr ?t'"
      by (simp add: class_sel_Inr)
    have "order ?t' \<le> 2" by simp
    from Cons.IH[OF this] step show ?case by auto
  qed
  have zero: "\<exists>s. chain cssSelectorBuilder (map CClass xs) = Inr s \<and> classes s = xs
      \<and> stringify s = concat (map (\<lambda>cssClass. ''.'' @ cssClass) xs)"
  proof -
    have "order cssSelectorBuilder \<le> 2"
      by (simp add: cssSelectorBuilder_def new_CSSSelectorBuilder_def)
    from many[OF this] obtain s where s: "chain cssSelectorBuilder (map CClass xs) = Inr s"
      "classes s = classes cssSelectorBuilder @ xs" "prefix s = prefix cssSelectorBuilder"
      "elementValue s = elementValue cssSelectorBuilder" "idValue s = idValue cssSelectorBuilder"
      "attrs s = attrs cssSelectorBuilder" "pseudoClasses s = pseudoClasses cssSelectorBuilder"
      "psuedoElementValue s = psuedoElementValue cssSelectorBuilder"
      by blast
    then have "classes s = xs \<and> stringify s = concat (map (\<lambda>cssClass. ''.'' @ cssClass) xs)"
      by (simp add: stringify_attrs_comma cssSelectorBuilder_def new_CSSSelectorBuilder_def)
    with s(1) show ?thesis by blast
  qed
  from three[of a b a] three[of "''a''" "''b''" "''a''"] render[of a b a]
    render[of "''a''" "''b''" "''a''"]
  have ex: "chain cssSelectorBuilder [CClass a, CClass b, CClass a]
        = Inr (new_CSSSelectorBuilder 2 [] [] [] [a, b, a] [] [] [])"
    "stringify_of (chain cssSelectorBuilder [CClass a, CClass b, CClass a])
        = Inr (''.'' @ a @ ''.'' @ b @ ''.'' @ a)"
    "stringify_of (chain cssSelectorBuilder [CClass ''a'', CClass ''b'', CClass ''a''])
        = Inr ''.a.b.a''"
    by (simp_all add: stringify_of_def)
  from many[of this] have many': "order this \<le> cssSelectorOrder PClasses \<longrightarrow>
      (\<exists>s. chain this (map CClass xs) = Inr s \<and> classes s = classes this @ xs)"
    by auto
  from ex one many' zero show ?thesis by blast
qed

theorem class_repeats_in_order_witness:
  "class_sel ''a'' cssSelectorBuilder = Inr (new_CSSSelectorBuilder 2 [] [] [] [''a''] [] [] [])
   \<and> classes (new_CSSSelectorBuilder 2 [] [] [] [''a''] [] [] [])
       = classes cssSelectorBuilder @ [''a'']
   \<and> order cssSelectorBuilder \<le> cssSelectorOrder PClasses
   \<and> (\<exists>s. chain cssSelectorBuilder (map CClass [''a'', ''b'', ''a'']) = Inr s
        \<and> classes s = classes cssSelectorBuilder @ [''a'', ''b'', ''a''])"
  using class_repeats_in_order[of "''a''" "''b''" "''a''" cssSelectorBuilder
      "new_CSSSelectorBuilder 2 [] [] [] [''a''] [] [] []" "[''a'', ''b'', ''a'']"]
  by (simp add: method_defs cssSelectorBuilder_def)

subsection \<open>Order and duplicates\<close>

text \<open>
  C3: on every reachable builder a fragment-adding call that succeeds returns a
  builder whose order is at least the receiver's, and a call whose category ranks
  below the receiver's order is rejected. The code breaks both on the builder
  \<open>combine(element('a'), '+', element('b'))\<close>, whose order is 1000:
  \<open>pseudoElement('x')\<close>, of rank 5, is not rejected there and returns a builder of
  order 5. The other five methods compare the order with their rank before they
  build; \<open>pseudoElement\<close> does not.
\<close>

theorem pseudoElement_lowers_order_after_combine:
  "combine_of (chain cssSelectorBuilder [CElement ''a'']) ''+''
       (chain cssSelectorBuilder [CElement ''b''])
     = Inr (new_CSSSelectorBuilder 1000 ''a + b'' [] [] [] [] [] [])
   \<and> cssSelectorOrder (call_part (CPseudoElement ''x''))
       < order (new_CSSSelectorBuilder 1000 ''a + b'' [] [] [] [] [] [])
   \<and> apply_call (new_CSSSelectorBuilder 1000 ''a + b'' [] [] [] [] [] []) (CPseudoElement ''x'')
       = Inr (new_CSSSelectorBuilder 5 ''a + b'' [] [] [] [] [] ''x'')
   \<and> order (new_CSSSelectorBuilder 5 ''a + b'' [] [] [] [] [] ''x'')
       < order (new_CSSSelectorBuilder 1000 ''a + b'' [] [] [] [] [] [])"
proof -
  let ?a = "new_CSSSelectorBuilder 0 [] ''a'' [] [] [] [] []"
  let ?b = "new_CSSSelectorBuilder 0 [] ''b'' [] [] [] [] []"
  let ?ab = "new_CSSSelectorBuilder 1000 ''a + b'' [] [] [] [] [] []"
  have a: "apply_call cssSelectorBuilder (CElement ''a'') = Inr ?a"
    and b: "apply_call cssSelectorBuilder (CElement ''b'') = Inr ?b"
    by (simp_all add: method_defs cssSelectorBuilder_def)
  have ab: "combine ?a ''+'' ?b = ?ab"
    by (simp add: combine_def new_CSSSelectorBuilder_def stringify_def array_toString_def)
  from a b ab have c: "combine_of (chain cssSelectorBuilder [CElement ''a'']) ''+''
      (chain cssSelectorBuilder [CElement ''b'']) = Inr ?ab"
    by (simp add: combine_of_def)
  have rest: "cssSelectorOrder (call_part (CPseudoElement ''x'')) < order ?ab"
    "apply_call ?ab (CPseudoElement ''x'')
       = Inr (new_CSSSelectorBuilder 5 ''a + b'' [] [] [] [] [] ''x'')"
    "order (new_CSSSelectorBuilder 5 ''a + b'' [] [] [] [] [] ''x'') < order ?ab"
    by (simp_all add: method_defs)
  from c rest show ?thesis by blast
qed

text \<open>
  C4, as amended: for every non-empty name \<open>a\<close> and all names \<open>b\<close> and \<open>c\<close>, the chain
  \<open>element(a).id(b)\<close> on the facade succeeds with order 1, above the rank 0 of
  element, and a subsequent \<open>element(c)\<close> fails with the error for a repeated
  fragment: \<open>element\<close> tests the stored element name before it tests the order.
\<close>

theorem element_after_id_more_than_one:
  assumes "a \<noteq> []"
  shows "chain cssSelectorBuilder [CElement a, CId b, CElement c] = Inl ErrorMoreThanOne
    \<and> chain cssSelectorBuilder [CElement a, CId b]
        = Inr (new_CSSSelectorBuilder 1 [] a b [] [] [] [])
    \<and> order (new_CSSSelectorBuilder 1 [] a b [] [] [] []) = cssSelectorOrder PId
    \<and> cssSelectorOrder PElement < order (new_CSSSelectorBuilder 1 [] a b [] [] [] [])"
  using assms by (simp add: method_defs cssSelectorBuilder_def)

theorem element_after_id_more_than_one_witness:
  "''a'' \<noteq> []
   \<and> chain cssSelectorBuilder [CElement ''a'', CId ''b'', CElement ''c''] = Inl ErrorMoreThanOne
   \<and> chain cssSelectorBuilder [CElement ''a'', CId ''b'']
       = Inr (new_CSSSelectorBuilder 1 [] ''a'' ''b'' [] [] [] [])"
  using element_after_id_more_than_one[of "''a''" "''b''" "''c''"] by simp

text \<open>
  The claim as it was stated, with the error for a wrong order, fails at
  \<open>element('a').id('b').element('c')\<close>.
\<close>

theorem element_after_id_not_order_error:
  "chain cssSelectorBuilder [CElement ''a'', CId ''b'', CElement ''c''] = Inl ErrorMoreThanOne
   \<and> chain cssSelectorBuilder [CElement ''a'', CId ''b'', CElement ''c''] \<noteq> Inl ErrorOrder"
  by (simp add: method_defs cssSelectorBuilder_def)

text \<open>
  C5, as amended: on every builder lineage each of the element name, the id and the
  pseudo-element is set to a non-empty value at most once: when a chain from any
  root builder contains a successful call of \<open>element\<close>, \<open>id\<close> or \<open>pseudoElement\<close> with
  a non-empty argument, a further call of the same setter on the builder at the end
  of the chain, with any argument, fails with the error for a repeated fragment,
  whatever the order.
\<close>

theorem setter_twice_more_than_one:
  assumes "x \<noteq> []"
    and "k = CElement \<or> k = CId \<or> k = CPseudoElement"
    and "chain root (before @ [k x] @ after) = Inr b"
  shows "apply_call b (k y) = Inl ErrorMoreThanOne"
proof -
  from assms(3) obtain s0 s1 where s1: "apply_call s0 (k x) = Inr s1"
    and b: "chain s1 after = Inr b"
    by (auto simp: chain_append bind_eq_Inr)
  from assms(2) consider "k = CElement" | "k = CId" | "k = CPseudoElement" by blast
  then show ?thesis
  proof cases
    case 1
    with s1 assms(1) have "elementValue s1 \<noteq> []" by (simp add: call_Inr)
    with chain_keeps_set(1)[OF b] have "elementValue b \<noteq> []" by simp
    with 1 show ?thesis by (simp add: method_defs)
  next
    case 2
    with s1 assms(1) have "idValue s1 \<noteq> []" by (simp add: call_Inr)
    with chain_keeps_set(2)[OF b] have "idValue b \<noteq> []" by simp
    with 2 show ?thesis by (simp add: method_defs)
  next
    case 3
    with s1 assms(1) have "psuedoElementValue s1 \<noteq> []" by (simp add: call_Inr)
    with chain_keeps_set(3)[OF b] have "psuedoElementValue b \<noteq> []" by simp
    with 3 show ?thesis by (simp add: method_defs)
  qed
qed

theorem setter_twice_more_than_one_witness:
  "(''x'' \<noteq> []
    \<and> chain cssSelectorBuilder ([] @ [CId ''x''] @ [CClass ''c''])
        = Inr (new_CSSSelectorBuilder 2 [] [] ''x'' [''c''] [] [] [])
    \<and> apply_call (new_CSSSelectorBuilder 2 [] [] ''x'' [''c''] [] [] []) (CId ''y'')
        = Inl ErrorMoreThanOne)
   \<and> (''div'' \<noteq> []
    \<and> chain cssSelectorBuilder ([] @ [CElement ''div''] @ [])
        = Inr (new_CSSSelectorBuilder 0 [] ''div'' [] [] [] [] [])
    \<and> apply_call (new_CSSSelectorBuilder 0 [] ''div'' [] [] [] [] []) (CElement ''p'')
        = Inl ErrorMoreThanOne)
   \<and> (''before'' \<noteq> []
    \<and> chain cssSelectorBuilder ([CElement ''p''] @ [CPseudoElement ''before''] @ [])
        = Inr (new_CSSSelectorBuilder 5 [] ''p'' [] [] [] [] ''before'')
    \<and> apply_call (new_CSSSelectorBuilder 5 [] ''p'' [] [] [] [] ''before'')
          (CPseudoElement ''after'')
        = Inl ErrorMoreThanOne)"
proof -
  have c1: "chain cssSelectorBuilder ([] @ [CId ''x''] @ [CClass ''c''])
      = Inr (new_CSSSelectorBuilder 2 [] [] ''x'' [''c''] [] [] [])"
    and c2: "chain cssSelectorBuilder ([] @ [CElement ''div''] @ [])
      = Inr (new_CSSSelectorBuilder 0 [] ''div'' [] [] [] [] [])"
    and c3: "chain cssSelectorBuilder ([CElement ''p''] @ [CPseudoElement ''before''] @ [])
      = Inr (new_CSSSelectorBuilder 5 [] ''p'' [] [] [] [] ''before'')"
    by (simp_all add: method_defs cssSelectorBuilder_def)
  have n: "''x'' \<noteq> []" "''div'' \<noteq> []" "''before'' \<noteq> []" by simp_all
  let ?x = "new_CSSSelectorBuilder 2 [] [] ''x'' [''c''] [] [] []"
  let ?div = "new_CSSSelectorBuilder 0 [] ''div'' [] [] [] [] []"
  let ?before = "new_CSSSelectorBuilder 5 [] ''p'' [] [] [] [] ''before''"
  from setter_twice_more_than_one[of "''x''" CId cssSelectorBuilder "[]" "[CClass ''c'']"
      ?x "''y''"]
    setter_twice_more_than_one[of "''div''" CElement cssSelectorBuilder "[]" "[]"
      ?div "''p''"]
    setter_twice_more_than_one[of "''before''" CPseudoElement cssSelectorBuilder
      "[CElement ''p'']" "[]" ?before "''after''"]
    c1 c2 c3 n
  show ?thesis by simp
qed

text \<open>
  The claim as it was stated, for every value of the first call, fails when that
  value is the empty string: \<open>id('').id('y')\<close> on the facade succeeds.
\<close>

theorem id_twice_after_empty_succeeds:
  "chain cssSelectorBuilder [CId [], CId ''y'']
     = Inr (new_CSSSelectorBuilder 1 [] [] ''y'' [] [] [] [])
   \<and> chain cssSelectorBuilder [CId [], CId ''y''] \<noteq> Inl ErrorMoreThanOne"
  by (simp add: method_defs cssSelectorBuilder_def)

text \<open>
  C6: a builder returned by \<open>combine\<close> accepts no further element or id: for every
  pair of builders and every combinator, each of the five methods with an order
  guard (\<open>element\<close>, \<open>id\<close>, \<open>class\<close>, \<open>attr\<close>, \<open>pseudoClass\<close>) throws the order error on
  the combined builder, whose order, 1000, is above the rank of every category.
\<close>

theorem combine_rejects_guarded_calls:
  "element v (combine l c r) = Inl ErrorOrder
   \<and> id_sel v (combine l c r) = Inl ErrorOrder
   \<and> class_sel v (combine l c r) = Inl ErrorOrder
   \<and> attr v (combine l c r) = Inl ErrorOrder
   \<and> pseudoClass v (combine l c r) = Inl ErrorOrder
   \<and> order (combine l c r) = 1000
   \<and> cssSelectorOrder p < order (combine l c r)"
proof -
  have "cssSelectorOrder p < 1000"
    by (cases p) simp_all
  then show ?thesis
    by (simp add: combine_def method_defs)
qed

text \<open>
  C9, as amended: \<open>pseudoElement\<close> has no order guard. On every builder whose
  pseudo-element is unset, also one returned by \<open>combine\<close>, whose order is 1000,
  \<open>pseudoElement(name)\<close> succeeds for every name; when the name is not empty,
  \<open>stringify\<close> on the result is the rendering of the receiver (for a combined builder,
  its prefix) followed by \<open>::\<close> and the name, and when the name is empty it is the
  rendering of the receiver with nothing appended.
\<close>

theorem pseudoElement_unguarded:
  assumes "psuedoElementValue b = []"
  shows "pseudoElement name b = Inr (b\<lparr>order := 5, psuedoElementValue := name\<rparr>)
    \<and> (name \<noteq> [] \<longrightarrow>
         stringify (b\<lparr>order := 5, psuedoElementValue := name\<rparr>) = stringify b @ ''::'' @ name)
    \<and> (name = [] \<longrightarrow> stringify (b\<lparr>order := 5, psuedoElementValue := name\<rparr>) = stringify b)
    \<and> order (combine l c r) = 1000
    \<and> cssSelectorOrder PPseudoElement < order (combine l c r)
    \<and> pseudoElement name (combine l c r)
        = Inr ((combine l c r)\<lparr>order := 5, psuedoElementValue := name\<rparr>)
    \<and> (name \<noteq> [] \<longrightarrow>
         stringify ((combine l c r)\<lparr>order := 5, psuedoElementValue := name\<rparr>)
           = prefix (combine l c r) @ ''::'' @ name)"
proof -
  from assms have call: "pseudoElement name b = Inr (b\<lparr>order := 5, psuedoElementValue := name\<rparr>)"
    by (simp add: pseudoElement_Inr)
  from assms have render:
    "name \<noteq> [] \<longrightarrow>
       stringify (b\<lparr>order := 5, psuedoElementValue := name\<rparr>) = stringify b @ ''::'' @ name"
    "name = [] \<longrightarrow> stringify (b\<lparr>order := 5, psuedoElementValue := name\<rparr>) = stringify b"
    by (simp_all add: stringify_def)
  have comb: "order (combine l c r) = 1000"
    "cssSelectorOrder PPseudoElement < order (combine l c r)"
    "pseudoElement name (combine l c r)
       = Inr ((combine l c r)\<lparr>order := 5, psuedoElementValue := name\<rparr>)"
    "name \<noteq> [] \<longrightarrow>
       stringify ((combine l c r)\<lparr>order := 5, psuedoElementValue := name\<rparr>)
         = prefix (combine l c r) @ ''::'' @ name"
    by (simp_all add: combine_def method_defs stringify_def array_toString_def)
  from call render comb show ?thesis by blast
qed

theorem pseudoElement_unguarded_witness:
  "psuedoElementValue (new_CSSSelectorBuilder 0 [] ''p'' [] [] [] [] []) = []
   \<and> pseudoElement [] (new_CSSSelectorBuilder 0 [] ''p'' [] [] [] [] [])
       = Inr (new_CSSSelectorBuilder 5 [] ''p'' [] [] [] [] [])
   \<and> stringify (new_CSSSelectorBuilder 5 [] ''p'' [] [] [] [] []) = ''p''
   \<and> ''after'' \<noteq> []
   \<and> pseudoElement ''after'' (new_CSSSelectorBuilder 0 [] ''p'' [] [] [] [] [])
       = Inr (new_CSSSelectorBuilder 5 [] ''p'' [] [] [] [] ''after'')
   \<and> stringify (new_CSSSelectorBuilder 5 [] ''p'' [] [] [] [] ''after'') = ''p::after''
   \<and> pseudoElement ''after''
         (combine (new_CSSSelectorBuilder 0 [] ''a'' [] [] [] [] []) ''+''
            (new_CSSSelectorBuilder 0 [] ''b'' [] [] [] [] []))
       = Inr (new_CSSSelectorBuilder 5 ''a + b'' [] [] [] [] [] ''after'')
   \<and> stringify (new_CSSSelectorBuilder 5 ''a + b'' [] [] [] [] [] ''after'') = ''a + b::after''"
  using pseudoElement_unguarded[of "new_CSSSelectorBuilder 0 [] ''p'' [] [] [] [] []"
      "''after''" "new_CSSSelectorBuilder 0 [] ''a'' [] [] [] [] []" "''+''"
      "new_CSSSelectorBuilder 0 [] ''b'' [] [] [] [] []"]
    pseudoElement_unguarded[of "new_CSSSelectorBuilder 0 [] ''p'' [] [] [] [] []" "[]"]
  by (simp add: new_CSSSelectorBuilder_def combine_def stringify_def array_toString_def)

text \<open>
  The claim as it was stated, for every name, fails at the empty name: on
  \<open>combine(element('a'), '+', element('b'))\<close> the call \<open>pseudoElement('')\<close> succeeds and
  the result renders as \<open>a + b\<close>, not as \<open>a + b::\<close>.
\<close>

theorem pseudoElement_empty_name_appends_nothing:
  "stringify_of (bind (combine_of (chain cssSelectorBuilder [CElement ''a'']) ''+''
       (chain cssSelectorBuilder [CElement ''b''])) (pseudoElement []))
     = Inr ''a + b''
   \<and> stringify_of (bind (combine_of (chain cssSelectorBuilder [CElement ''a'']) ''+''
       (chain cssSelectorBuilder [CElement ''b''])) (pseudoElement []))
     \<noteq> Inr (''a + b'' @ ''::'' @ [])"
  by (simp add: stringify_of_def combine_of_def combine_def method_defs cssSelectorBuilder_def
      stringify_def array_toString_def)

text \<open>
  C10: the guards against a repeated element, id or pseudo-element fire exactly
  when the stored value is truthy, that is, not the empty string. When the first
  call of a setter was made with the empty string and returned, a second call of
  the same setter on the builder it returned does not raise the error for a
  repeated fragment: it succeeds and stores its argument.
\<close>

theorem duplicate_guard_truthy_only:
  "(element v b = Inl ErrorMoreThanOne \<longleftrightarrow> elementValue b \<noteq> [])
   \<and> (id_sel v b = Inl ErrorMoreThanOne \<longleftrightarrow> idValue b \<noteq> [])
   \<and> (pseudoElement v b = Inl ErrorMoreThanOne \<longleftrightarrow> psuedoElementValue b \<noteq> [])
   \<and> (element [] b = Inr be \<longrightarrow>
        element v be \<noteq> Inl ErrorMoreThanOne \<and> element v be = Inr (be\<lparr>elementValue := v\<rparr>))
   \<and> (id_sel [] b = Inr bi \<longrightarrow>
        id_sel v bi \<noteq> Inl ErrorMoreThanOne \<and> id_sel v bi = Inr (bi\<lparr>idValue := v\<rparr>))
   \<and> (pseudoElement [] b = Inr bp \<longrightarrow>
        pseudoElement v bp \<noteq> Inl ErrorMoreThanOne
        \<and> pseudoElement v bp = Inr (bp\<lparr>psuedoElementValue := v\<rparr>))"
proof -
  have guards: "element v b = Inl ErrorMoreThanOne \<longleftrightarrow> elementValue b \<noteq> []"
    "id_sel v b = Inl ErrorMoreThanOne \<longleftrightarrow> idValue b \<noteq> []"
    "pseudoElement v b = Inl ErrorMoreThanOne \<longleftrightarrow> psuedoElementValue b \<noteq> []"
    by (simp_all add: method_defs)
  have e: "element [] b = Inr be \<longrightarrow>
      element v be \<noteq> Inl ErrorMoreThanOne \<and> element v be = Inr (be\<lparr>elementValue := v\<rparr>)"
    by (auto simp: call_Inr) (simp add: method_defs)
  have i: "id_sel [] b = Inr bi \<longrightarrow>
      id_sel v bi \<noteq> Inl ErrorMoreThanOne \<and> id_sel v bi = Inr (bi\<lparr>idValue := v\<rparr>)"
    by (auto simp: call_Inr) (simp add: method_defs)
  have p: "pseudoElement [] b = Inr bp \<longrightarrow>
      pseudoElement v bp \<noteq> Inl ErrorMoreThanOne
      \<and> pseudoElement v bp = Inr (bp\<lparr>psuedoElementValue := v\<rparr>)"
    by (auto simp: call_Inr) (simp add: method_defs)
  from guards e i p show ?thesis by blast
qed

theorem duplicate_guard_truthy_only_witness:
  "element [] cssSelectorBuilder = Inr (new_CSSSelectorBuilder 0 [] [] [] [] [] [] [])
   \<and> element ''y'' (new_CSSSelectorBuilder 0 [] [] [] [] [] [] [])
       = Inr (new_CSSSelectorBuilder 0 [] ''y'' [] [] [] [] [])
   \<and> id_sel [] cssSelectorBuilder = Inr (new_CSSSelectorBuilder 1 [] [] [] [] [] [] [])
   \<and> id_sel ''y'' (new_CSSSelectorBuilder 1 [] [] [] [] [] [] [])
       = Inr (new_CSSSelectorBuilder 1 [] [] ''y'' [] [] [] [])
   \<and> pseudoElement [] cssSelectorBuilder = Inr (new_CSSSelectorBuilder 5 [] [] [] [] [] [] [])
   \<and> pseudoElement ''y'' (new_CSSSelectorBuilder 5 [] [] [] [] [] [] [])
       = Inr (new_CSSSelectorBuilder 5 [] [] [] [] [] [] ''y'')"
  using duplicate_guard_truthy_only[of "''y''" cssSelectorBuilder
      "new_CSSSelectorBuilder 0 [] [] [] [] [] [] []"
      "new_CSSSelectorBuilder 1 [] [] [] [] [] [] []"
      "new_CSSSelectorBuilder 5 [] [] [] [] [] [] []"]
  by (simp add: method_defs cssSelectorBuilder_def)

end
